theory Spec2Isabelle
  imports Main "HOL-Library.Word"
begin

unbundle bit_operations_syntax

section \<open>Game Boy Printer emulator: byte streamer and packet parser\<close>

text \<open>
  A shallow embedding of \<^verbatim>\<open>src/gbp/gameboy_printer.cpp\<close>. The C structs are
  records, the parse state enum is a datatype, \<^verbatim>\<open>uint8_t\<close>, \<^verbatim>\<open>uint16_t\<close> and
  \<^verbatim>\<open>unsigned long\<close> are 8, 16 and 32 bit words. Where the C code does not hand
  back a state (the endless loop, a store through a null pointer) the model returns a
  \<open>gbp_fault\<close>.
\<close>

type_synonym u8 = "8 word"
type_synonym u16 = "16 word"
type_synonym u32 = "32 word"

subsection \<open>Protocol constants\<close>

text \<open>
  The header \<^verbatim>\<open>gameboy_printer_protocol.h\<close> is not among the sources. What the code
  takes from it (the sync word, the four command codes, the device id, and the function
  \<^verbatim>\<open>gbp_status_byte\<close> that encodes the printer status) is a parameter of the model.
\<close>

record gbp_printer_status_t =
  checksum_error :: bool
  unprocessed_data :: bool
  print_buffer_full :: bool
  printer_busy :: bool

record gbp_protocol =
  GBP_SYNC_WORD :: u16
  GBP_COMMAND_INIT :: u8
  GBP_COMMAND_DATA :: u8
  GBP_COMMAND_PRINT :: u8
  GBP_COMMAND_INQUIRY :: u8
  GBP_DEVICE_ID :: u8
  gbp_status_byte :: "gbp_printer_status_t \<Rightarrow> u8"

text \<open>The labels of a C \<^verbatim>\<open>switch\<close> are pairwise distinct.\<close>

definition gbp_commands_distinct :: "gbp_protocol \<Rightarrow> bool" where
  "gbp_commands_distinct P =
     distinct [GBP_COMMAND_INIT P, GBP_COMMAND_DATA P, GBP_COMMAND_PRINT P, GBP_COMMAND_INQUIRY P]"

text \<open>
  An instance of the parameters, with the values published for the Game Boy Printer link
  protocol: sync word 0x8833, INIT 0x01, PRINT 0x02, DATA 0x04, INQUIRY 0x0F, device id
  0x81, and a status byte with the checksum error in bit 0, busy in bit 1, buffer full in
  bit 2 and unprocessed data in bit 3. It is the instance at which concrete packets are run.
\<close>

definition gbp_status_byte_std :: "gbp_printer_status_t \<Rightarrow> u8" where
  "gbp_status_byte_std st =
     (if unprocessed_data st then 0x08 else 0) OR
     (if print_buffer_full st then 0x04 else 0) OR
     (if printer_busy st then 0x02 else 0) OR
     (if checksum_error st then 0x01 else 0)"

definition gbp_protocol_std :: gbp_protocol where
  "gbp_protocol_std =
     \<lparr>GBP_SYNC_WORD = 0x8833, GBP_COMMAND_INIT = 0x01, GBP_COMMAND_DATA = 0x04,
      GBP_COMMAND_PRINT = 0x02, GBP_COMMAND_INQUIRY = 0x0F, GBP_DEVICE_ID = 0x81,
      gbp_status_byte = gbp_status_byte_std\<rparr>"

definition GBP_PACKET_PRETEND_PRINT_TIME_MS :: u32 where
  "GBP_PACKET_PRETEND_PRINT_TIME_MS = 2000"

subsection \<open>Data model\<close>

datatype gbp_parse_state_t =
    GBP_PARSE_STATE_COMMAND
  | GBP_PARSE_STATE_COMPRESSION
  | GBP_PARSE_STATE_DATA_LENGTH_LOW
  | GBP_PARSE_STATE_PACKET_DATA_LENGTH_HIGH
  | GBP_PARSE_STATE_VARIABLE_PAYLOAD
  | GBP_PARSE_STATE_CHECKSUM_LOW
  | GBP_PARSE_STATE_CHECKSUM_HIGH
  | GBP_PARSE_STATE_DEVICE_ID
  | GBP_PARSE_STATE_PRINTER_STATUS
  | GBP_PARSE_STATE_PACKET_RECEIVED
  | GBP_PARSE_STATE_DIAGNOSTICS

text \<open>
  \<^verbatim>\<open>data_ptr\<close> is only ever \<^verbatim>\<open>NULL\<close> or the address of one of the two buffers of
  the printer struct; the model keeps which one.
\<close>

datatype gbp_data_ptr = NULL | Print_Buffer | Print_Settings_Buffer

record gbp_packet_t =
  command :: u8
  compression :: u8
  data_length :: u16
  data_ptr :: gbp_data_ptr
  checksum :: u16
  acknowledgement :: u8
  printer_status :: u8

record gbp_rx_tx_byte_buffer_t =
  initialized :: bool
  serial_clock_state_prev :: bool
  syncronised :: bool
  sync_word :: u16
  sync_buffer :: u16
  byte_frame_bit_pos :: u8
  rx_byte_buffer :: u8
  tx_byte_staging :: u8
  tx_byte_buffer :: u8

record gbp_packet_parser_t =
  parse_state :: gbp_parse_state_t
  data_index :: u16
  calculated_checksum :: u16
  crc_high :: u8
  crc_low :: u8

record gbp_printer_t =
  printer_initialized :: bool
  gbp_printer_status :: gbp_printer_status_t
  gbp_rx_tx_byte_buffer :: gbp_rx_tx_byte_buffer_t
  gbp_packet_parser :: gbp_packet_parser_t
  gbp_packet :: gbp_packet_t
  packet_ready_flag :: bool
  gbp_print_settings_buffer :: "u8 list"
  gbp_print_buffer :: "u8 list"
  uptime_til_timeout_ms :: u32
  uptime_til_pretend_print_finish_ms :: u32
  past_print_buffer :: "(nat \<times> u8) list"

text \<open>
  \<open>past_print_buffer\<close> is not a member of the C struct. It keeps the stores of the
  payload stage that land past the end of \<^verbatim>\<open>gbp_print_buffer\<close>, oldest first, each
  with its distance in bytes from the end of the array (see \<open>gbp_write_payload\<close>).
\<close>

text \<open>
  The outcomes in which the C function does not hand back a state: the endless loop
  \<^verbatim>\<open>while (1);\<close> of the data length check, and a payload store through a null
  \<^verbatim>\<open>data_ptr\<close>.
\<close>

datatype gbp_fault = Halted | Null_Dereference

subsection \<open>Byte streamer\<close>

definition gbp_rx_tx_byte_reset :: "gbp_protocol \<Rightarrow> gbp_rx_tx_byte_buffer_t" where
  "gbp_rx_tx_byte_reset P =
     \<lparr>initialized = True, serial_clock_state_prev = False, syncronised = False,
      sync_word = GBP_SYNC_WORD P, sync_buffer = 0, byte_frame_bit_pos = 0,
      rx_byte_buffer = 0, tx_byte_staging = 0, tx_byte_buffer = 0\<rparr>"

definition gbp_rx_tx_byte_set :: "gbp_rx_tx_byte_buffer_t \<Rightarrow> u8 \<Rightarrow> gbp_rx_tx_byte_buffer_t" where
  "gbp_rx_tx_byte_set ptr tx_byte = ptr\<lparr>tx_byte_staging := tx_byte\<rparr>"

text \<open>
  What one call of \<^verbatim>\<open>gbp_rx_tx_byte_update\<close> hands back besides the updated struct:
  the received byte when \<^verbatim>\<open>byte_ready\<close> is returned true, the bit state
  (\<open>None\<close> for \<^verbatim>\<open>NO_NEW_BIT\<close>), and the level written to the output pin
  \<^verbatim>\<open>GBP_SI_PIN\<close> by \<^verbatim>\<open>digitalWrite\<close> (\<open>None\<close> when the call does not write).
\<close>

record gbp_rx_tx_byte_result =
  rx_tx_buffer :: gbp_rx_tx_byte_buffer_t
  rx_byte :: "u8 option"
  rx_bitState :: "bool option"
  si_pin_write :: "bool option"

text \<open>
  The sync buffer as a FIFO of bits (lines 206 to 212): shift left by one, then push in
  a 1 when the data line is high.
\<close>

definition gbp_sync_shift :: "u16 \<Rightarrow> bool \<Rightarrow> u16" where
  "gbp_sync_shift sb serial_out_state =
     (let sb = push_bit 1 sb in if serial_out_state then sb OR 1 else sb)"

text \<open>
  Rising clock: lines 196 to 245. \<^verbatim>\<open>byte_frame_bit_pos\<close> is only ever set to 7 or
  counted down to 0; for a position above 7 the mask \<^verbatim>\<open>1 << byte_frame_bit_pos\<close> has
  no bit inside a byte, in C as here.
\<close>

definition gbp_rx_rising :: "gbp_rx_tx_byte_buffer_t \<Rightarrow> bool \<Rightarrow> gbp_rx_tx_byte_buffer_t \<times> u8 option" where
  "gbp_rx_rising ptr serial_out_state =
     (if \<not> syncronised ptr then
        (let sb = gbp_sync_shift (sync_buffer ptr) serial_out_state;
             ptr = ptr\<lparr>sync_buffer := sb\<rparr>
         in if sb = sync_word ptr
            then (ptr\<lparr>syncronised := True, byte_frame_bit_pos := 7\<rparr>, None)
            else (ptr, None))
      else
        (let ptr = (if serial_out_state
                    then ptr\<lparr>rx_byte_buffer :=
                           rx_byte_buffer ptr OR push_bit (unat (byte_frame_bit_pos ptr)) 1\<rparr>
                    else ptr)
         in if byte_frame_bit_pos ptr > 0
            then (ptr\<lparr>byte_frame_bit_pos := byte_frame_bit_pos ptr - 1\<rparr>, None)
            else (ptr\<lparr>byte_frame_bit_pos := 7, rx_byte_buffer := 0\<rparr>,
                  Some (rx_byte_buffer ptr))))"

text \<open>
  Falling clock: lines 247 to 276. The statement \<^verbatim>\<open>if ((ptr->syncronised)) ;\<close> ends
  at its semicolon, so the block after it runs on every falling edge.
\<close>

definition gbp_tx_falling :: "gbp_rx_tx_byte_buffer_t \<Rightarrow> gbp_rx_tx_byte_buffer_t \<times> bool option" where
  "gbp_tx_falling ptr =
     (let ptr = (if byte_frame_bit_pos ptr = 7
                 then (if tx_byte_staging ptr \<noteq> 0
                       then ptr\<lparr>tx_byte_buffer := tx_byte_staging ptr\<rparr>
                       else ptr\<lparr>tx_byte_buffer := 0\<rparr>)
                 else ptr)
      in (ptr, Some (bit (tx_byte_buffer ptr) (unat (byte_frame_bit_pos ptr)))))"

definition gbp_rx_tx_byte_update ::
  "gbp_protocol \<Rightarrow> gbp_rx_tx_byte_buffer_t \<Rightarrow> bool \<Rightarrow> bool \<Rightarrow> gbp_rx_tx_byte_result" where
  "gbp_rx_tx_byte_update P ptr serial_clock_state serial_out_state =
     (if \<not> initialized ptr then
        \<lparr>rx_tx_buffer = (gbp_rx_tx_byte_reset P)\<lparr>serial_clock_state_prev := serial_clock_state\<rparr>,
         rx_byte = None, rx_bitState = None, si_pin_write = None\<rparr>
      else if serial_clock_state \<noteq> serial_clock_state_prev ptr then
        (if serial_clock_state then
           (case gbp_rx_rising ptr serial_out_state of (ptr', byte) \<Rightarrow>
              \<lparr>rx_tx_buffer = ptr'\<lparr>serial_clock_state_prev := serial_clock_state\<rparr>,
               rx_byte = byte, rx_bitState = Some serial_out_state, si_pin_write = None\<rparr>)
         else
           (case gbp_tx_falling ptr of (ptr', out) \<Rightarrow>
              \<lparr>rx_tx_buffer = ptr'\<lparr>serial_clock_state_prev := serial_clock_state\<rparr>,
               rx_byte = None, rx_bitState = None, si_pin_write = out\<rparr>))
      else
        \<lparr>rx_tx_buffer = ptr\<lparr>serial_clock_state_prev := serial_clock_state\<rparr>,
         rx_byte = None, rx_bitState = None, si_pin_write = None\<rparr>)"

text \<open>
  One clock period that carries the data bit \<open>b\<close>: the falling edge, on which the
  emulator drives its output, then the rising edge, on which it samples \<open>b\<close>. The result
  is the streamer after both edges, the byte completed by the rising edge, and the level
  written on the falling edge.
\<close>

definition gbp_clock_bit ::
  "gbp_protocol \<Rightarrow> gbp_rx_tx_byte_buffer_t \<Rightarrow> bool \<Rightarrow> gbp_rx_tx_byte_buffer_t \<times> u8 option \<times> bool option" where
  "gbp_clock_bit P ptr b =
     (let f = gbp_rx_tx_byte_update P ptr False b;
          r = gbp_rx_tx_byte_update P (rx_tx_buffer f) True b
      in (rx_tx_buffer r, rx_byte r, si_pin_write f))"

fun gbp_clock_bits ::
  "gbp_protocol \<Rightarrow> gbp_rx_tx_byte_buffer_t \<Rightarrow> bool list \<Rightarrow> gbp_rx_tx_byte_buffer_t \<times> bool option list" where
  "gbp_clock_bits P ptr [] = (ptr, [])"
| "gbp_clock_bits P ptr (b # bs) =
     (case gbp_clock_bit P ptr b of (ptr', byte, out) \<Rightarrow>
        (case gbp_clock_bits P ptr' bs of (ptr'', outs) \<Rightarrow> (ptr'', out # outs)))"

subsection \<open>Message parser\<close>

definition gbp_parse_message_reset :: gbp_packet_parser_t where
  "gbp_parse_message_reset =
     \<lparr>parse_state = GBP_PARSE_STATE_COMMAND, data_index = 0, calculated_checksum = 0,
      crc_high = 0, crc_low = 0\<rparr>"

text \<open>The \<^verbatim>\<open>switch (packet_ptr->command)\<close> of the command stage.\<close>

definition gbp_select_data_ptr :: "gbp_protocol \<Rightarrow> u8 \<Rightarrow> gbp_data_ptr" where
  "gbp_select_data_ptr P cmd =
     (if cmd = GBP_COMMAND_INIT P then NULL
      else if cmd = GBP_COMMAND_DATA P then Print_Buffer
      else if cmd = GBP_COMMAND_PRINT P then Print_Settings_Buffer
      else if cmd = GBP_COMMAND_INQUIRY P then NULL
      else NULL)"

text \<open>
  The store \<^verbatim>\<open>packet_ptr->data_ptr[ptr->data_index] = rx_byte\<close> (line 397) is not
  guarded: the byte goes to the address \<^verbatim>\<open>data_ptr + data_index\<close> whatever the index,
  and the statements after it run. The arrays are \<^verbatim>\<open>gbp_print_settings_buffer[4]\<close>
  and \<^verbatim>\<open>gbp_print_buffer[650]\<close>; the lists of the model have these lengths.

  In the struct \<^verbatim>\<open>gbp_print_buffer\<close> follows \<^verbatim>\<open>gbp_print_settings_buffer\<close>
  directly (both are arrays of \<^verbatim>\<open>uint8_t\<close>, so there is no padding between them): a
  store through the settings pointer at index \<open>4 + k\<close> is a store to
  \<^verbatim>\<open>gbp_print_buffer[k]\<close>.

  A store at \<open>k\<close> bytes past the end of \<^verbatim>\<open>gbp_print_buffer\<close> lands in what follows
  the array in memory: padding, the two timeout members, and what lies behind the
  struct. The source does not fix that layout, so the model does not interpret the store:
  it records it in \<open>past_print_buffer\<close> and leaves the two timeout fields as the
  assignments of the code last set them. The members the parser reads lie before the two
  arrays, out of reach of an index that only counts upwards.
\<close>

definition gbp_store_print_buffer :: "gbp_printer_t \<Rightarrow> nat \<Rightarrow> u8 \<Rightarrow> gbp_printer_t" where
  "gbp_store_print_buffer printer k rx =
     (if k < length (gbp_print_buffer printer)
      then printer\<lparr>gbp_print_buffer := (gbp_print_buffer printer)[k := rx]\<rparr>
      else printer\<lparr>past_print_buffer :=
             past_print_buffer printer @ [(k - length (gbp_print_buffer printer), rx)]\<rparr>)"

definition gbp_write_payload :: "gbp_printer_t \<Rightarrow> u8 \<Rightarrow> gbp_fault + gbp_printer_t" where
  "gbp_write_payload printer rx =
     (let i = unat (data_index (gbp_packet_parser printer)) in
      case data_ptr (gbp_packet printer) of
        NULL \<Rightarrow> Inl Null_Dereference
      | Print_Buffer \<Rightarrow> Inr (gbp_store_print_buffer printer i rx)
      | Print_Settings_Buffer \<Rightarrow>
          if i < length (gbp_print_settings_buffer printer)
          then Inr (printer\<lparr>gbp_print_settings_buffer := (gbp_print_settings_buffer printer)[i := rx]\<rparr>)
          else Inr (gbp_store_print_buffer printer (i - length (gbp_print_settings_buffer printer)) rx))"

text \<open>
  The first half of \<^verbatim>\<open>gbp_parse_message_update\<close> (lines 314 to 446): the current
  state consumes the byte. All pointer arguments of the C function point into the one
  global \<^verbatim>\<open>gbp_printer\<close>, as at its only call site, so the model works on that struct.
\<close>

definition gbp_parse_new_byte :: "gbp_protocol \<Rightarrow> gbp_printer_t \<Rightarrow> u8 \<Rightarrow> gbp_fault + gbp_printer_t" where
  "gbp_parse_new_byte P printer rx =
     (let ptr = gbp_packet_parser printer; packet = gbp_packet printer in
      case parse_state ptr of
        GBP_PARSE_STATE_COMMAND \<Rightarrow>
          Inr (printer\<lparr>
            gbp_packet_parser := ptr\<lparr>parse_state := GBP_PARSE_STATE_COMPRESSION,
                                      calculated_checksum := 0 + ucast rx\<rparr>,
            gbp_packet := packet\<lparr>command := rx, data_ptr := gbp_select_data_ptr P rx\<rparr>\<rparr>)
      | GBP_PARSE_STATE_COMPRESSION \<Rightarrow>
          Inr (printer\<lparr>
            gbp_packet_parser := ptr\<lparr>parse_state := GBP_PARSE_STATE_DATA_LENGTH_LOW,
                                      calculated_checksum := calculated_checksum ptr + ucast rx\<rparr>,
            gbp_packet := packet\<lparr>compression := rx\<rparr>\<rparr>)
      | GBP_PARSE_STATE_DATA_LENGTH_LOW \<Rightarrow>
          Inr (printer\<lparr>
            gbp_packet_parser := ptr\<lparr>parse_state := GBP_PARSE_STATE_PACKET_DATA_LENGTH_HIGH,
                                      calculated_checksum := calculated_checksum ptr + ucast rx\<rparr>,
            gbp_packet := packet\<lparr>data_length := data_length packet OR (ucast rx AND 0x00FF)\<rparr>\<rparr>)
      | GBP_PARSE_STATE_PACKET_DATA_LENGTH_HIGH \<Rightarrow>
          (let len = data_length packet OR (push_bit 8 (ucast rx) AND 0xFF00) in
           if len > 0 then
             (if data_ptr packet = NULL then Inl Halted
              else Inr (printer\<lparr>
                gbp_packet_parser := ptr\<lparr>parse_state := GBP_PARSE_STATE_VARIABLE_PAYLOAD,
                                          calculated_checksum := calculated_checksum ptr + ucast rx\<rparr>,
                gbp_packet := packet\<lparr>data_length := len\<rparr>\<rparr>))
           else
             Inr (printer\<lparr>
               gbp_packet_parser := ptr\<lparr>parse_state := GBP_PARSE_STATE_CHECKSUM_LOW,
                                         calculated_checksum := calculated_checksum ptr + ucast rx\<rparr>,
               gbp_packet := packet\<lparr>data_length := len\<rparr>\<rparr>))
      | GBP_PARSE_STATE_VARIABLE_PAYLOAD \<Rightarrow>
          (case gbp_write_payload printer rx of
             Inl e \<Rightarrow> Inl e
           | Inr printer \<Rightarrow>
               (let ptr = ptr\<lparr>calculated_checksum := calculated_checksum ptr + ucast rx,
                               data_index := data_index ptr + 1\<rparr>
                in if data_index ptr > data_length packet
                   then Inr (printer\<lparr>gbp_packet_parser := ptr\<lparr>parse_state := GBP_PARSE_STATE_CHECKSUM_LOW\<rparr>\<rparr>)
                   else Inr (printer\<lparr>gbp_packet_parser := ptr\<rparr>)))
      | GBP_PARSE_STATE_CHECKSUM_LOW \<Rightarrow>
          Inr (printer\<lparr>
            gbp_packet_parser := ptr\<lparr>parse_state := GBP_PARSE_STATE_CHECKSUM_HIGH, crc_low := rx\<rparr>,
            gbp_packet := packet\<lparr>checksum := 0 OR (ucast rx AND 0x00FF)\<rparr>\<rparr>)
      | GBP_PARSE_STATE_CHECKSUM_HIGH \<Rightarrow>
          Inr (printer\<lparr>
            gbp_packet_parser := ptr\<lparr>parse_state := GBP_PARSE_STATE_DEVICE_ID, crc_high := rx\<rparr>,
            gbp_packet := packet\<lparr>checksum := checksum packet OR (push_bit 8 (ucast rx) AND 0xFF00)\<rparr>\<rparr>)
      | GBP_PARSE_STATE_DEVICE_ID \<Rightarrow>
          Inr (printer\<lparr>gbp_packet_parser := ptr\<lparr>parse_state := GBP_PARSE_STATE_PRINTER_STATUS\<rparr>\<rparr>)
      | GBP_PARSE_STATE_PRINTER_STATUS \<Rightarrow>
          Inr (printer\<lparr>gbp_packet_parser := ptr\<lparr>parse_state := GBP_PARSE_STATE_PACKET_RECEIVED\<rparr>\<rparr>)
      | GBP_PARSE_STATE_PACKET_RECEIVED \<Rightarrow> Inr printer
      | GBP_PARSE_STATE_DIAGNOSTICS \<Rightarrow> Inr printer)"

text \<open>
  The \<^verbatim>\<open>switch (packet_ptr->command)\<close> of the printer status stage (lines 511 to
  528); \<open>now\<close> is the reading of \<^verbatim>\<open>millis()\<close>. The switch has no default label.
\<close>

definition gbp_status_on_command :: "gbp_protocol \<Rightarrow> u32 \<Rightarrow> gbp_printer_t \<Rightarrow> gbp_printer_t" where
  "gbp_status_on_command P now printer =
     (let cmd = command (gbp_packet printer); st = gbp_printer_status printer in
      if cmd = GBP_COMMAND_INIT P then printer
      else if cmd = GBP_COMMAND_DATA P then
        printer\<lparr>gbp_printer_status := st\<lparr>unprocessed_data := True\<rparr>\<rparr>
      else if cmd = GBP_COMMAND_PRINT P then
        printer\<lparr>gbp_printer_status :=
                  st\<lparr>unprocessed_data := False, print_buffer_full := True, printer_busy := True\<rparr>,
                uptime_til_pretend_print_finish_ms := now + GBP_PACKET_PRETEND_PRINT_TIME_MS\<rparr>
      else if cmd = GBP_COMMAND_INQUIRY P then printer
      else printer)"

text \<open>
  The second half (lines 455 to 545), run when the state has changed: the action of the
  state just entered. The second component is the byte to transmit
  (\<^verbatim>\<open>*new_tx_byte\<close> and \<^verbatim>\<open>*tx_byte\<close>).
\<close>

definition gbp_parse_init_stage :: "gbp_protocol \<Rightarrow> u32 \<Rightarrow> gbp_printer_t \<Rightarrow> gbp_printer_t \<times> u8 option" where
  "gbp_parse_init_stage P now printer =
     (let ptr = gbp_packet_parser printer; packet = gbp_packet printer in
      case parse_state ptr of
        GBP_PARSE_STATE_COMMAND \<Rightarrow> (printer, None)
      | GBP_PARSE_STATE_COMPRESSION \<Rightarrow> (printer, None)
      | GBP_PARSE_STATE_DATA_LENGTH_LOW \<Rightarrow>
          (printer\<lparr>gbp_packet := packet\<lparr>data_length := 0\<rparr>\<rparr>, None)
      | GBP_PARSE_STATE_PACKET_DATA_LENGTH_HIGH \<Rightarrow> (printer, None)
      | GBP_PARSE_STATE_VARIABLE_PAYLOAD \<Rightarrow>
          (printer\<lparr>gbp_packet_parser := ptr\<lparr>data_index := 0\<rparr>\<rparr>, None)
      | GBP_PARSE_STATE_CHECKSUM_LOW \<Rightarrow> (printer, None)
      | GBP_PARSE_STATE_CHECKSUM_HIGH \<Rightarrow> (printer, None)
      | GBP_PARSE_STATE_DEVICE_ID \<Rightarrow>
          (printer\<lparr>gbp_packet := packet\<lparr>acknowledgement := GBP_DEVICE_ID P\<rparr>\<rparr>,
           Some (GBP_DEVICE_ID P))
      | GBP_PARSE_STATE_PRINTER_STATUS \<Rightarrow>
          (let printer = printer\<lparr>gbp_printer_status :=
                           (gbp_printer_status printer)\<lparr>checksum_error :=
                              (calculated_checksum ptr \<noteq> checksum packet)\<rparr>\<rparr>;
               printer = gbp_status_on_command P now printer;
               tx = gbp_status_byte P (gbp_printer_status printer)
           in (printer\<lparr>gbp_packet := (gbp_packet printer)\<lparr>printer_status := tx\<rparr>\<rparr>, Some tx))
      | GBP_PARSE_STATE_PACKET_RECEIVED \<Rightarrow> (printer\<lparr>packet_ready_flag := True\<rparr>, None)
      | GBP_PARSE_STATE_DIAGNOSTICS \<Rightarrow> (printer, None))"

definition gbp_parse_message_update ::
  "gbp_protocol \<Rightarrow> u32 \<Rightarrow> gbp_printer_t \<Rightarrow> bool \<Rightarrow> u8 \<Rightarrow> gbp_fault + (gbp_printer_t \<times> u8 option)" where
  "gbp_parse_message_update P now printer new_rx_byte rx =
     (let parse_state_prev = parse_state (gbp_packet_parser printer) in
      case (if new_rx_byte then gbp_parse_new_byte P printer rx else Inr printer) of
        Inl e \<Rightarrow> Inl e
      | Inr printer \<Rightarrow>
          if parse_state (gbp_packet_parser printer) \<noteq> parse_state_prev
          then Inr (gbp_parse_init_stage P now printer)
          else Inr (printer, None))"

text \<open>
  Feeding the parser a sequence of received bytes, each with the reading of
  \<^verbatim>\<open>millis()\<close> at its call; the bytes staged for transmission are collected.
\<close>

fun gbp_parse_bytes ::
  "gbp_protocol \<Rightarrow> gbp_printer_t \<Rightarrow> (u32 \<times> u8) list \<Rightarrow> gbp_fault + (gbp_printer_t \<times> u8 option list)" where
  "gbp_parse_bytes P printer [] = Inr (printer, [])"
| "gbp_parse_bytes P printer ((now, rx) # rest) =
     (case gbp_parse_message_update P now printer True rx of
        Inl e \<Rightarrow> Inl e
      | Inr (printer', tx) \<Rightarrow>
          (case gbp_parse_bytes P printer' rest of
             Inl e \<Rightarrow> Inl e
           | Inr (printer'', txs) \<Rightarrow> Inr (printer'', tx # txs)))"

subsection \<open>Printer\<close>

text \<open>The global \<^verbatim>\<open>gbp_printer\<close> before any code runs: static storage, all zero.\<close>

definition gbp_printer_zero :: gbp_printer_t where
  "gbp_printer_zero =
     \<lparr>printer_initialized = False,
      gbp_printer_status = \<lparr>checksum_error = False, unprocessed_data = False,
                            print_buffer_full = False, printer_busy = False\<rparr>,
      gbp_rx_tx_byte_buffer = \<lparr>initialized = False, serial_clock_state_prev = False,
                               syncronised = False, sync_word = 0, sync_buffer = 0,
                               byte_frame_bit_pos = 0, rx_byte_buffer = 0,
                               tx_byte_staging = 0, tx_byte_buffer = 0\<rparr>,
      gbp_packet_parser = gbp_parse_message_reset,
      gbp_packet = \<lparr>command = 0, compression = 0, data_length = 0, data_ptr = NULL,
                    checksum = 0, acknowledgement = 0, printer_status = 0\<rparr>,
      packet_ready_flag = False,
      gbp_print_settings_buffer = replicate 4 0,
      gbp_print_buffer = replicate 650 0,
      uptime_til_timeout_ms = 0,
      uptime_til_pretend_print_finish_ms = 0,
      past_print_buffer = []\<rparr>"

definition gbp_printer_init :: "gbp_protocol \<Rightarrow> gbp_printer_t \<Rightarrow> gbp_printer_t" where
  "gbp_printer_init P ptr =
     ptr\<lparr>printer_initialized := True,
         gbp_printer_status := \<lparr>checksum_error = False, unprocessed_data = False,
                                 print_buffer_full = False, printer_busy = False\<rparr>,
         gbp_rx_tx_byte_buffer := gbp_rx_tx_byte_reset P,
         gbp_packet_parser := gbp_parse_message_reset\<rparr>"

text \<open>The declared sizes of the two arrays.\<close>

definition gbp_buffers_ok :: "gbp_printer_t \<Rightarrow> bool" where
  "gbp_buffers_ok printer =
     (length (gbp_print_settings_buffer printer) = 4 \<and> length (gbp_print_buffer printer) = 650)"

definition gbp_capacity :: "gbp_data_ptr \<Rightarrow> nat" where
  "gbp_capacity p = (case p of NULL \<Rightarrow> 0 | Print_Buffer \<Rightarrow> 650 | Print_Settings_Buffer \<Rightarrow> 4)"

subsection \<open>Notions used in the statements\<close>

text \<open>The parse state in which a run of the parser ends, when it ends in a state.\<close>

definition gbp_state_after :: "gbp_fault + (gbp_printer_t \<times> 'a) \<Rightarrow> gbp_parse_state_t option" where
  "gbp_state_after r =
     (case r of Inl e \<Rightarrow> None | Inr (printer, out) \<Rightarrow> Some (parse_state (gbp_packet_parser printer)))"

text \<open>The 16 bits of a word, most significant first, as they travel on the data line.\<close>

definition gbp_word_bits :: "u16 \<Rightarrow> bool list" where
  "gbp_word_bits w = map (bit w) (rev [0..<16])"

definition gbp_byte_bits :: "u8 \<Rightarrow> bool list" where
  "gbp_byte_bits w = map (bit w) (rev [0..<8])"

text \<open>
  The number of sampled bits after which the sync buffer, starting from \<open>sb\<close>, first
  equals the sync word \<open>w\<close>; \<open>None\<close> when it never does over the given bits.
\<close>

fun gbp_sync_scan :: "u16 \<Rightarrow> u16 \<Rightarrow> bool list \<Rightarrow> nat option" where
  "gbp_sync_scan w sb [] = None"
| "gbp_sync_scan w sb (b # bs) =
     (if gbp_sync_shift sb b = w then Some 1
      else map_option Suc (gbp_sync_scan w (gbp_sync_shift sb b) bs))"

text \<open>The little-endian 16 bit value that the two length stages, and the two checksum
  stages, assemble from a low and a high byte, starting from zero.\<close>

definition gbp_le16 :: "u8 \<Rightarrow> u8 \<Rightarrow> u16" where
  "gbp_le16 lo hi = (0 OR (ucast lo AND 0x00FF)) OR (push_bit 8 (ucast hi) AND 0xFF00)"

text \<open>
  Modelled from the spec: \<^verbatim>\<open>gbp_status_byte\<close> is defined in the absent header. The
  spec (section 6) gives the status byte as a fixed bit-per-flag encoding of the printer
  status, with the checksum error among the flags. For that flag and its bit \<open>m\<close>:
  the byte has the bit exactly when the flag is set.
\<close>

definition gbp_status_byte_flags_checksum :: "gbp_protocol \<Rightarrow> u8 \<Rightarrow> bool" where
  "gbp_status_byte_flags_checksum P m =
     (\<forall>st. (gbp_status_byte P st AND m \<noteq> 0) = checksum_error st)"

subsection \<open>Sample states\<close>

text \<open>
  The printer as \<^verbatim>\<open>gameboy_printer_setup\<close> leaves it, for the instance of the
  protocol constants above, and the same printer in the middle of a pretended print.
\<close>

definition gbp_printer_ready :: gbp_printer_t where
  "gbp_printer_ready = gbp_printer_init gbp_protocol_std gbp_printer_zero"

definition gbp_printer_busy_example :: gbp_printer_t where
  "gbp_printer_busy_example =
     gbp_printer_ready\<lparr>gbp_printer_status :=
        \<lparr>checksum_error = False, unprocessed_data = True, print_buffer_full = True, printer_busy = True\<rparr>,
        uptime_til_pretend_print_finish_ms := 5000\<rparr>"

section \<open>Basic facts\<close>

lemmas gbp_parse_defs = gbp_parse_message_update_def gbp_parse_new_byte_def
  gbp_parse_init_stage_def gbp_status_on_command_def gbp_select_data_ptr_def
  gbp_write_payload_def gbp_store_print_buffer_def Let_def

lemmas gbp_streamer_defs = gbp_rx_tx_byte_update_def gbp_rx_rising_def gbp_tx_falling_def
  gbp_clock_bit_def Let_def

lemmas gbp_ready_defs = gbp_printer_ready_def gbp_printer_init_def gbp_printer_zero_def
  gbp_protocol_std_def gbp_parse_message_reset_def gbp_rx_tx_byte_reset_def

subsection \<open>Words and bit lists\<close>

lemma upt_16: "[0..<16] = [0, 1, 2, 3, 4, 5, 6, 7, 8, 9, 10, 11, 12, 13, 14, 15]"
  by code_simp

lemma upt_8: "[0..<8] = [0, 1, 2, 3, 4, 5, 6, 7]"
  by code_simp

lemma word_bits_std: "gbp_word_bits 0x8833 =
  [True, False, False, False, True, False, False, False, False, False, True, True, False, False, True, True]"
  by (simp add: gbp_word_bits_def upt_16)

lemma byte_bits_list:
  "gbp_byte_bits B = [bit B 7, bit B 6, bit B 5, bit B 4, bit B 3, bit B 2, bit B 1, bit B 0]"
  by (simp add: gbp_byte_bits_def upt_8)

text \<open>\<open>gbp_le16\<close> is the little-endian reading of the two bytes.\<close>

lemma le16_cat: "gbp_le16 lo hi = ucast lo + push_bit 8 (ucast hi)"
proof -
  have m1: "(0xFF :: u16) = mask 8" by (simp add: mask_eq_exp_minus_1)
  have m2: "(0xFF00 :: u16) = push_bit 8 (mask 8)" by (simp add: mask_eq_exp_minus_1 push_bit_eq_mult)
  have a: "(ucast lo :: u16) AND 0xFF = ucast lo"
    unfolding m1 by (rule bit_word_eqI) (auto simp add: bit_simps dest: bit_imp_le_length)
  have b: "push_bit 8 (ucast hi :: u16) AND 0xFF00 = push_bit 8 (ucast hi)"
    unfolding m2 by (rule bit_word_eqI) (auto simp add: bit_simps dest: bit_imp_le_length)
  have c: "(ucast lo :: u16) OR push_bit 8 (ucast hi) = ucast lo + push_bit 8 (ucast hi)"
    by (rule disjunctive_add [symmetric]) (auto simp add: bit_simps dest: bit_imp_le_length)
  show ?thesis
    by (simp add: gbp_le16_def a b c)
qed

lemma le16_unat: "unat (gbp_le16 lo hi) = unat lo + 256 * unat hi"
proof -
  have l: "unat lo < 256" using unsigned_less [of lo, where ?'a = nat] by simp
  have h: "unat hi < 256" using unsigned_less [of hi, where ?'a = nat] by simp
  have ul: "unat (ucast lo :: u16) = unat lo"
    using l by (simp add: unsigned_ucast_eq take_bit_nat_eq_self)
  have uh: "unat (ucast hi :: u16) = unat hi"
    using h by (simp add: unsigned_ucast_eq take_bit_nat_eq_self)
  have "unat (gbp_le16 lo hi) = (unat lo + 256 * unat hi) mod 65536"
    by (simp add: le16_cat unat_word_ariths push_bit_eq_mult ul uh mod_simps mult.commute)
  with l h show ?thesis by simp
qed

text \<open>Shifting the 16 bits of a word into the sync buffer leaves exactly that word.\<close>

lemma shift_bits_upto:
  "n \<le> 16 \<Longrightarrow> foldl gbp_sync_shift sb (map (bit w) (rev [0..<n])) = push_bit n sb OR take_bit n w"
proof (induction n arbitrary: sb)
  case 0
  then show ?case by simp
next
  case (Suc n)
  have "foldl gbp_sync_shift sb (map (bit w) (rev [0..<Suc n]))
      = foldl gbp_sync_shift (gbp_sync_shift sb (bit w n)) (map (bit w) (rev [0..<n]))"
    by simp
  also have "\<dots> = push_bit n (gbp_sync_shift sb (bit w n)) OR take_bit n w"
    using Suc by simp
  also have "\<dots> = push_bit (Suc n) sb OR take_bit (Suc n) w"
    by (rule bit_word_eqI) (auto simp add: gbp_sync_shift_def Let_def bit_simps less_Suc_eq)
  finally show ?case .
qed

lemma shift_word_bits: "foldl gbp_sync_shift sb (gbp_word_bits w) = w"
  using shift_bits_upto [of 16 sb w] by (simp add: gbp_word_bits_def take_bit_word_eq_self)

subsection \<open>One clock period of the streamer\<close>

lemma clock_bit_unsynced:
  assumes "initialized ptr" "\<not> syncronised ptr"
  shows "gbp_clock_bit P ptr b =
    (let txb = (if serial_clock_state_prev ptr \<and> byte_frame_bit_pos ptr = 7
                then tx_byte_staging ptr else tx_byte_buffer ptr);
         sb = gbp_sync_shift (sync_buffer ptr) b
     in (if sb = sync_word ptr
         then ptr\<lparr>serial_clock_state_prev := True, syncronised := True, sync_buffer := sb,
                  byte_frame_bit_pos := 7, tx_byte_buffer := txb\<rparr>
         else ptr\<lparr>serial_clock_state_prev := True, sync_buffer := sb, tx_byte_buffer := txb\<rparr>,
         None,
         if serial_clock_state_prev ptr then Some (bit txb (unat (byte_frame_bit_pos ptr))) else None))"
  using assms
  by (cases ptr) (auto simp add: gbp_streamer_defs)

lemma clock_bit_synced:
  assumes "initialized ptr" "syncronised ptr" "serial_clock_state_prev ptr"
  shows "gbp_clock_bit P ptr b =
    (let txb = (if byte_frame_bit_pos ptr = 7 then tx_byte_staging ptr else tx_byte_buffer ptr);
         rxb = (if b then rx_byte_buffer ptr OR push_bit (unat (byte_frame_bit_pos ptr)) 1
                else rx_byte_buffer ptr)
     in (if byte_frame_bit_pos ptr > 0
         then ptr\<lparr>tx_byte_buffer := txb, rx_byte_buffer := rxb,
                  byte_frame_bit_pos := byte_frame_bit_pos ptr - 1\<rparr>
         else ptr\<lparr>tx_byte_buffer := txb, rx_byte_buffer := 0, byte_frame_bit_pos := 7\<rparr>,
         if byte_frame_bit_pos ptr > 0 then None else Some rxb,
         Some (bit txb (unat (byte_frame_bit_pos ptr)))))"
  using assms
  by (cases ptr) (auto simp add: gbp_streamer_defs)

lemmas gbp_clock_eval = word_bits_std clock_bit_unsynced clock_bit_synced gbp_sync_shift_def
  gbp_rx_tx_byte_reset_def gbp_rx_tx_byte_set_def gbp_protocol_std_def Let_def

lemma clock_bit_unsynced_fields:
  assumes "initialized ptr" "\<not> syncronised ptr"
  shows "initialized (fst (gbp_clock_bit P ptr b))"
    and "sync_word (fst (gbp_clock_bit P ptr b)) = sync_word ptr"
    and "sync_buffer (fst (gbp_clock_bit P ptr b)) = gbp_sync_shift (sync_buffer ptr) b"
    and "syncronised (fst (gbp_clock_bit P ptr b)) = (gbp_sync_shift (sync_buffer ptr) b = sync_word ptr)"
    and "syncronised (fst (gbp_clock_bit P ptr b)) \<Longrightarrow> byte_frame_bit_pos (fst (gbp_clock_bit P ptr b)) = 7"
  using assms by (auto simp add: gbp_streamer_defs split: if_splits)

lemma clock_bit_synced_stays:
  assumes "initialized ptr" "syncronised ptr"
  shows "initialized (fst (gbp_clock_bit P ptr b)) \<and> syncronised (fst (gbp_clock_bit P ptr b))"
  using assms by (auto simp add: gbp_streamer_defs split: if_splits)

lemma clock_bits_Cons_fst:
  "fst (gbp_clock_bits P ptr (b # bs)) = fst (gbp_clock_bits P (fst (gbp_clock_bit P ptr b)) bs)"
  by (simp add: split_beta)

lemma clock_bits_append:
  "fst (gbp_clock_bits P ptr (xs @ ys)) = fst (gbp_clock_bits P (fst (gbp_clock_bits P ptr xs)) ys)"
  by (induction xs arbitrary: ptr) (simp_all add: split_beta)

text \<open>Nothing in the update clears \<^verbatim>\<open>syncronised\<close>.\<close>

lemma clock_bits_synced_stay:
  "initialized ptr \<Longrightarrow> syncronised ptr \<Longrightarrow>
   initialized (fst (gbp_clock_bits P ptr bs)) \<and> syncronised (fst (gbp_clock_bits P ptr bs))"
proof (induction bs arbitrary: ptr)
  case Nil
  then show ?case by simp
next
  case (Cons b bs)
  define p1 where "p1 = fst (gbp_clock_bit P ptr b)"
  have cb: "fst (gbp_clock_bits P ptr (b # bs)) = fst (gbp_clock_bits P p1 bs)"
    unfolding p1_def by (rule clock_bits_Cons_fst)
  from clock_bit_synced_stays [OF Cons.prems, of P b] have "initialized p1" "syncronised p1"
    by (simp_all add: p1_def)
  from Cons.IH [OF this] show ?case
    by (simp only: cb)
qed

text \<open>
  While the sync buffer has not matched, the streamer stays unsynchronised and the buffer
  holds the bits shifted in; once it has matched, the streamer is synchronised.
\<close>

lemma scan_none_unsync:
  "initialized ptr \<Longrightarrow> \<not> syncronised ptr \<Longrightarrow>
   gbp_sync_scan (sync_word ptr) (sync_buffer ptr) bs = None \<Longrightarrow>
   initialized (fst (gbp_clock_bits P ptr bs)) \<and> \<not> syncronised (fst (gbp_clock_bits P ptr bs))
   \<and> sync_word (fst (gbp_clock_bits P ptr bs)) = sync_word ptr
   \<and> sync_buffer (fst (gbp_clock_bits P ptr bs)) = foldl gbp_sync_shift (sync_buffer ptr) bs"
proof (induction bs arbitrary: ptr)
  case Nil
  then show ?case by simp
next
  case (Cons b bs)
  define p1 where "p1 = fst (gbp_clock_bit P ptr b)"
  have cb: "fst (gbp_clock_bits P ptr (b # bs)) = fst (gbp_clock_bits P p1 bs)"
    unfolding p1_def by (rule clock_bits_Cons_fst)
  from Cons.prems(3) have ne: "gbp_sync_shift (sync_buffer ptr) b \<noteq> sync_word ptr"
    and rest: "gbp_sync_scan (sync_word ptr) (gbp_sync_shift (sync_buffer ptr) b) bs = None"
    by (auto split: if_splits)
  from clock_bit_unsynced_fields [OF Cons.prems(1,2), of P b] ne
  have p1: "initialized p1" "\<not> syncronised p1" "sync_word p1 = sync_word ptr"
    "sync_buffer p1 = gbp_sync_shift (sync_buffer ptr) b" by (simp_all add: p1_def)
  from Cons.IH [of p1] p1 rest show ?case
    unfolding cb by simp
qed

lemma scan_some_sync:
  "initialized ptr \<Longrightarrow> \<not> syncronised ptr \<Longrightarrow>
   gbp_sync_scan (sync_word ptr) (sync_buffer ptr) bs = Some n \<Longrightarrow>
   initialized (fst (gbp_clock_bits P ptr bs)) \<and> syncronised (fst (gbp_clock_bits P ptr bs))"
proof (induction bs arbitrary: ptr n)
  case Nil
  then show ?case by simp
next
  case (Cons b bs)
  define p1 where "p1 = fst (gbp_clock_bit P ptr b)"
  have cb: "fst (gbp_clock_bits P ptr (b # bs)) = fst (gbp_clock_bits P p1 bs)"
    unfolding p1_def by (rule clock_bits_Cons_fst)
  from clock_bit_unsynced_fields [OF Cons.prems(1,2), of P b]
  have p1: "initialized p1" "sync_word p1 = sync_word ptr"
    "sync_buffer p1 = gbp_sync_shift (sync_buffer ptr) b"
    "syncronised p1 = (gbp_sync_shift (sync_buffer ptr) b = sync_word ptr)"
    by (simp_all add: p1_def)
  show ?case
  proof (cases "syncronised p1")
    case True
    with clock_bits_synced_stay [of p1 P bs] p1 show ?thesis unfolding cb by simp
  next
    case False
    with Cons.prems(3) p1 obtain m where "gbp_sync_scan (sync_word p1) (sync_buffer p1) bs = Some m"
      by (auto split: if_splits)
    from Cons.IH [OF p1(1) False this] show ?thesis unfolding cb by simp
  qed
qed

subsection \<open>Runs of the parser\<close>

lemma parse_bytes_append:
  "gbp_parse_bytes P s (xs @ ys) =
     (case gbp_parse_bytes P s xs of
        Inl e \<Rightarrow> Inl e
      | Inr (s', txs) \<Rightarrow>
          (case gbp_parse_bytes P s' ys of
             Inl e \<Rightarrow> Inl e
           | Inr (s'', txs') \<Rightarrow> Inr (s'', txs @ txs')))"
  by (induction xs arbitrary: s) (auto split: sum.splits prod.splits)

text \<open>The four header bytes, from the command stage.\<close>

lemma header_run:
  assumes "gbp_buffers_ok s"
    and "parse_state (gbp_packet_parser s) = GBP_PARSE_STATE_COMMAND"
  shows "gbp_parse_bytes P s [(t1, cmd), (t2, c), (t3, lo), (t4, hi)] =
     (if gbp_le16 lo hi = 0 then
        Inr (s\<lparr>gbp_packet_parser := (gbp_packet_parser s)\<lparr>
                  parse_state := GBP_PARSE_STATE_CHECKSUM_LOW,
                  calculated_checksum := 0 + ucast cmd + ucast c + ucast lo + ucast hi\<rparr>,
               gbp_packet := (gbp_packet s)\<lparr>command := cmd, compression := c,
                  data_length := gbp_le16 lo hi, data_ptr := gbp_select_data_ptr P cmd\<rparr>\<rparr>,
             [None, None, None, None])
      else if gbp_select_data_ptr P cmd = NULL then Inl Halted
      else
        Inr (s\<lparr>gbp_packet_parser := (gbp_packet_parser s)\<lparr>
                  parse_state := GBP_PARSE_STATE_VARIABLE_PAYLOAD, data_index := 0,
                  calculated_checksum := 0 + ucast cmd + ucast c + ucast lo + ucast hi\<rparr>,
               gbp_packet := (gbp_packet s)\<lparr>command := cmd, compression := c,
                  data_length := gbp_le16 lo hi, data_ptr := gbp_select_data_ptr P cmd\<rparr>\<rparr>,
             [None, None, None, None]))"
  using assms
  by (simp add: gbp_parse_message_update_def gbp_parse_new_byte_def gbp_parse_init_stage_def
      Let_def gbp_le16_def word_greater_zero_iff)

text \<open>One payload byte: the store returns a state for every index.\<close>

lemma payload_step:
  assumes "parse_state (gbp_packet_parser s) = GBP_PARSE_STATE_VARIABLE_PAYLOAD"
    and "data_ptr (gbp_packet s) \<noteq> NULL"
  shows "\<exists>s'. gbp_parse_message_update P now s True rx = Inr (s', None)
     \<and> parse_state (gbp_packet_parser s') =
         (if data_length (gbp_packet s) < data_index (gbp_packet_parser s) + 1
          then GBP_PARSE_STATE_CHECKSUM_LOW else GBP_PARSE_STATE_VARIABLE_PAYLOAD)
     \<and> data_index (gbp_packet_parser s') = data_index (gbp_packet_parser s) + 1
     \<and> gbp_packet s' = gbp_packet s
     \<and> gbp_buffers_ok s' = gbp_buffers_ok s"
  using assms
  by (cases "data_ptr (gbp_packet s)") (simp_all add: gbp_parse_defs gbp_buffers_ok_def)

text \<open>Where the byte of an overlong payload goes.\<close>

lemma payload_store_past_settings:
  assumes "gbp_buffers_ok s"
    and "parse_state (gbp_packet_parser s) = GBP_PARSE_STATE_VARIABLE_PAYLOAD"
    and "data_ptr (gbp_packet s) = Print_Settings_Buffer"
    and "unat (data_index (gbp_packet_parser s)) = 4"
  shows "\<exists>s'. gbp_parse_message_update P now s True rx = Inr (s', None)
     \<and> gbp_print_buffer s' ! 0 = rx
     \<and> gbp_print_settings_buffer s' = gbp_print_settings_buffer s"
  using assms by (simp add: gbp_parse_defs gbp_buffers_ok_def)

lemma payload_store_past_print:
  assumes "gbp_buffers_ok s"
    and "parse_state (gbp_packet_parser s) = GBP_PARSE_STATE_VARIABLE_PAYLOAD"
    and "data_ptr (gbp_packet s) = Print_Buffer"
    and "unat (data_index (gbp_packet_parser s)) = 650"
  shows "\<exists>s'. gbp_parse_message_update P now s True rx = Inr (s', None)
     \<and> past_print_buffer s' = past_print_buffer s @ [(0, rx)]
     \<and> gbp_print_buffer s' = gbp_print_buffer s"
  using assms by (simp add: gbp_parse_defs gbp_buffers_ok_def)

text \<open>Payload bytes up to the announced length: the stage does not end.\<close>

lemma payload_run:
  assumes "parse_state (gbp_packet_parser s) = GBP_PARSE_STATE_VARIABLE_PAYLOAD"
    and "data_ptr (gbp_packet s) \<noteq> NULL"
    and "unat (data_index (gbp_packet_parser s)) + length bs \<le> unat (data_length (gbp_packet s))"
  shows "\<exists>s'. gbp_parse_bytes P s bs = Inr (s', replicate (length bs) None)
     \<and> parse_state (gbp_packet_parser s') = GBP_PARSE_STATE_VARIABLE_PAYLOAD
     \<and> unat (data_index (gbp_packet_parser s')) = unat (data_index (gbp_packet_parser s)) + length bs
     \<and> gbp_packet s' = gbp_packet s
     \<and> gbp_buffers_ok s' = gbp_buffers_ok s"
  using assms
proof (induction bs arbitrary: s)
  case Nil
  then show ?case by simp
next
  case (Cons b bs)
  obtain now rx where b: "b = (now, rx)" by (cases b)
  let ?i = "data_index (gbp_packet_parser s)"
  let ?L = "data_length (gbp_packet s)"
  from Cons.prems(3) have lt: "unat ?i < unat ?L" by simp
  have "unat ?L < 65536" using unsigned_less [of ?L, where ?'a = nat] by simp
  with lt have suc: "unat (?i + 1) = unat ?i + 1"
    by (simp add: unat_word_ariths)
  with lt have stay: "\<not> ?L < ?i + 1"
    by (simp add: word_less_nat_alt)
  from payload_step [OF Cons.prems(1,2), of P now rx] stay suc
  obtain s1 where s1: "gbp_parse_message_update P now s True rx = Inr (s1, None)"
    "parse_state (gbp_packet_parser s1) = GBP_PARSE_STATE_VARIABLE_PAYLOAD"
    "unat (data_index (gbp_packet_parser s1)) = unat ?i + 1"
    "gbp_packet s1 = gbp_packet s" "gbp_buffers_ok s1 = gbp_buffers_ok s"
    by auto
  from Cons.IH [OF s1(2)] s1(3,4) Cons.prems(2,3)
  obtain s' where "gbp_parse_bytes P s1 bs = Inr (s', replicate (length bs) None)"
    "parse_state (gbp_packet_parser s') = GBP_PARSE_STATE_VARIABLE_PAYLOAD"
    "unat (data_index (gbp_packet_parser s')) = unat (data_index (gbp_packet_parser s1)) + length bs"
    "gbp_packet s' = gbp_packet s1" "gbp_buffers_ok s' = gbp_buffers_ok s1"
    by auto
  with s1 show ?case by (simp add: b)
qed


section \<open>The claims\<close>

subsection \<open>C1: round trip of a DATA packet\<close>

lemma checksum_high_bits_differ: "push_bit 8 (ucast (b1 :: u8)) AND 65280 \<noteq> (218 :: u16)"
proof
  assume "push_bit 8 (ucast b1) AND 65280 = (218 :: u16)"
  then have "bit (push_bit 8 (ucast b1) AND 65280 :: u16) 1 = bit (218 :: u16) 1" by simp
  then show False by (simp add: bit_simps)
qed

text \<open>
  Claim C1 says: the packet command DATA, compression 0, data length 3, payload 0x11 0x22
  0x33, followed by its little-endian checksum and two further bytes, fed byte by byte to
  the parser, leaves \<^verbatim>\<open>checksum_error\<close> false and the payload at offsets 0, 1, 2 of the
  image buffer.

  The code does the second and not the first. With DATA = 0x04 the checksum is 0x006D.
  The payload stage leaves only when \<^verbatim>\<open>data_index > data_length\<close>, after four bytes, so the
  low checksum byte 0x6D is stored at offset 3 and added to the running sum; the high
  checksum byte and the first of the two further bytes are then read as the checksum.
  After the eleven bytes the parser is in the printer status stage with
  \<^verbatim>\<open>checksum_error\<close> set, whatever the two further bytes \<open>b1\<close> and \<open>b2\<close> are.
\<close>

theorem data_packet_round_trip_checksum_error:
  "gbp_le16 0x6D 0x00 = 0x04 + 0 + 3 + 0 + 0x11 + 0x22 + 0x33 \<and>
   (case gbp_parse_bytes gbp_protocol_std gbp_printer_ready
      (map (Pair t) [0x04, 0, 3, 0, 0x11, 0x22, 0x33, 0x6D, 0x00, b1, b2]) of
      Inl e \<Rightarrow> False
    | Inr (s', txs) \<Rightarrow>
        parse_state (gbp_packet_parser s') = GBP_PARSE_STATE_PRINTER_STATUS \<and>
        checksum_error (gbp_printer_status s') \<and>
        gbp_print_buffer s' ! 0 = 0x11 \<and> gbp_print_buffer s' ! 1 = 0x22 \<and>
        gbp_print_buffer s' ! 2 = 0x33 \<and> gbp_print_buffer s' ! 3 = 0x6D)"
  by (simp add: gbp_parse_defs gbp_ready_defs gbp_le16_def checksum_high_bits_differ)

subsection \<open>C2: falling edge while not synchronised\<close>

text \<open>
  Every falling edge of an initialised streamer writes the output pin, synchronised or
  not: the guard \<^verbatim>\<open>if ((ptr->syncronised)) ;\<close> guards an empty statement.
\<close>

lemma falling_edge_always_writes:
  "initialized ptr \<Longrightarrow> serial_clock_state_prev ptr \<Longrightarrow>
   si_pin_write (gbp_rx_tx_byte_update P ptr False d) \<noteq> None"
  by (simp add: gbp_rx_tx_byte_update_def gbp_tx_falling_def Let_def)

text \<open>
  Claim C2 says: on a falling clock edge observed while the streamer is not synchronised,
  the update does not drive the output data line.

  The code drives it. After the reset and one rising edge with the data line low the
  streamer is not synchronised; on the falling edge that follows, the update writes the
  output pin (low), against the comment "Only start transmitting when syncronised".
\<close>

theorem falling_edge_unsynchronised_writes_pin:
  "\<not> syncronised (rx_tx_buffer
        (gbp_rx_tx_byte_update gbp_protocol_std (gbp_rx_tx_byte_reset gbp_protocol_std) True False))
   \<and> si_pin_write (gbp_rx_tx_byte_update gbp_protocol_std
        (rx_tx_buffer
           (gbp_rx_tx_byte_update gbp_protocol_std (gbp_rx_tx_byte_reset gbp_protocol_std) True False))
        False d) = Some False"
  by (simp add: gbp_rx_tx_byte_update_def gbp_rx_tx_byte_reset_def gbp_protocol_std_def
      gbp_rx_rising_def gbp_tx_falling_def gbp_sync_shift_def Let_def)

subsection \<open>C3: the payload stage consumes one byte more than the data length\<close>




subsection \<open>C4: after a packet has been received\<close>

text \<open>
  Claim C4 says: once the packet received state is entered, the next incoming byte is
  consumed as the command byte of a new packet.

  The parser has no restart of its own. In the packet received state a byte changes
  nothing and stages nothing, so the parser stays there for every further byte; the
  restart is \<^verbatim>\<open>gbp_parse_message_reset\<close>, called from outside the parser, and after
  it the next byte is consumed as the command byte.
\<close>

theorem packet_received_ignores_bytes:
  assumes "parse_state (gbp_packet_parser s) = GBP_PARSE_STATE_PACKET_RECEIVED"
  shows "gbp_parse_message_update P now s True rx = Inr (s, None)
    \<and> (case gbp_parse_message_update P now (s\<lparr>gbp_packet_parser := gbp_parse_message_reset\<rparr>) True rx of
         Inl e \<Rightarrow> False
       | Inr (s', tx) \<Rightarrow> parse_state (gbp_packet_parser s') = GBP_PARSE_STATE_COMPRESSION \<and>
           command (gbp_packet s') = rx)"
  using assms by (simp add: gbp_parse_defs gbp_parse_message_reset_def)

text \<open>The theorem at the state a complete INIT packet leaves, with the next byte 0x04.\<close>

theorem packet_received_ignores_bytes_witness:
  "case gbp_parse_bytes gbp_protocol_std gbp_printer_ready
          (map (Pair 0) [0x01, 0, 0, 0, 0x01, 0, 0, 0]) of
     Inl e \<Rightarrow> False
   | Inr (s, txs) \<Rightarrow>
       parse_state (gbp_packet_parser s) = GBP_PARSE_STATE_PACKET_RECEIVED
       \<and> gbp_parse_message_update gbp_protocol_std 0 s True 0x04 = Inr (s, None)
       \<and> (case gbp_parse_message_update gbp_protocol_std 0
                  (s\<lparr>gbp_packet_parser := gbp_parse_message_reset\<rparr>) True 0x04 of
             Inl e \<Rightarrow> False
           | Inr (s', tx) \<Rightarrow>
               parse_state (gbp_packet_parser s') = GBP_PARSE_STATE_COMPRESSION
               \<and> command (gbp_packet s') = 0x04)"
proof -
  obtain s txs where run: "gbp_parse_bytes gbp_protocol_std gbp_printer_ready
          (map (Pair 0) [0x01, 0, 0, 0, 0x01, 0, 0, 0]) = Inr (s, txs)"
    and st: "parse_state (gbp_packet_parser s) = GBP_PARSE_STATE_PACKET_RECEIVED"
    by (simp add: gbp_parse_defs gbp_ready_defs)
  note c = packet_received_ignores_bytes [where P = gbp_protocol_std and now = 0 and rx = "0x04", OF st]
  show ?thesis
    by (simp only: run sum.case prod.case) (intro conjI st c [THEN conjunct1] c [THEN conjunct2])
qed

text \<open>
  The claim as stated fails: a complete INIT packet (checksum 0x0001) ends in the packet
  received state, and the byte 0x04 that follows leaves the parser there, with the
  command of the packet still 0x01.
\<close>

theorem packet_received_counterexample:
  "gbp_state_after (gbp_parse_bytes gbp_protocol_std gbp_printer_ready
       (map (Pair 0) [0x01, 0, 0, 0, 0x01, 0, 0, 0])) = Some GBP_PARSE_STATE_PACKET_RECEIVED
   \<and> (case gbp_parse_bytes gbp_protocol_std gbp_printer_ready
           (map (Pair 0) [0x01, 0, 0, 0, 0x01, 0, 0, 0, 0x04]) of
         Inl e \<Rightarrow> False
       | Inr (s', txs) \<Rightarrow>
           parse_state (gbp_packet_parser s') = GBP_PARSE_STATE_PACKET_RECEIVED \<and>
           command (gbp_packet s') = 0x01 \<and> command (gbp_packet s') \<noteq> 0x04)"
  by (simp add: gbp_parse_defs gbp_ready_defs gbp_state_after_def)

subsection \<open>C5: synchronisation on the sync word\<close>

text \<open>
  Claim C5 says: for every sequence of rising clock edges whose sampled bits contain the
  sync word, most significant bit first, the streamer turns synchronised exactly on the
  edge that completes it, whatever the bits before, and sets the bit position to 7 there.

  For an initialised, unsynchronised streamer, any content of the sync buffer and any
  bits \<open>pre\<close> before the 16 bits of the sync word: after the last bit the streamer is
  synchronised; and when the sync buffer did not already equal the sync word on an
  earlier edge (then the streamer turned synchronised on that earlier edge), it is still
  unsynchronised before the last edge and has bit position 7 after it.
\<close>

theorem sync_word_synchronises:
  assumes "initialized ptr" and "\<not> syncronised ptr"
    and "bits = pre @ gbp_word_bits (sync_word ptr)"
  shows "syncronised (fst (gbp_clock_bits P ptr bits)) \<and>
         (gbp_sync_scan (sync_word ptr) (sync_buffer ptr) (butlast bits) = None \<longrightarrow>
            \<not> syncronised (fst (gbp_clock_bits P ptr (butlast bits))) \<and>
            byte_frame_bit_pos (fst (gbp_clock_bits P ptr bits)) = 7)"
proof -
  let ?w = "sync_word ptr"
  have len: "gbp_word_bits ?w \<noteq> []" by (simp add: gbp_word_bits_def)
  then have bits_ne: "bits \<noteq> []" using assms(3) by simp
  then have split: "bits = butlast bits @ [last bits]" by simp
  define q where "q = fst (gbp_clock_bits P ptr (butlast bits))"
  have after: "fst (gbp_clock_bits P ptr bits) = fst (gbp_clock_bit P q (last bits))"
    using clock_bits_append [of P ptr "butlast bits" "[last bits]"] split
    by (simp add: q_def split_beta)
  show ?thesis
  proof (cases "gbp_sync_scan ?w (sync_buffer ptr) (butlast bits)")
    case None
    from scan_none_unsync [OF assms(1,2) None, of P]
    have q: "initialized q" "\<not> syncronised q" "sync_word q = ?w"
      "sync_buffer q = foldl gbp_sync_shift (sync_buffer ptr) (butlast bits)"
      by (simp_all add: q_def)
    have "gbp_sync_shift (sync_buffer q) (last bits) = foldl gbp_sync_shift (sync_buffer ptr) bits"
      using q(4) split by (metis foldl_Cons foldl_Nil foldl_append)
    also have "\<dots> = ?w"
      using assms(3) shift_word_bits by simp
    finally have m: "gbp_sync_shift (sync_buffer q) (last bits) = sync_word q"
      using q(3) by simp
    from clock_bit_unsynced_fields(4,5) [OF q(1,2), of P "last bits"] m
    have "syncronised (fst (gbp_clock_bit P q (last bits)))"
      "byte_frame_bit_pos (fst (gbp_clock_bit P q (last bits))) = 7" by simp_all
    with q(2) show ?thesis by (simp add: after q_def [symmetric])
  next
    case (Some n)
    from scan_some_sync [OF assms(1,2) Some, of P]
    have "syncronised q" "initialized q" by (simp_all add: q_def)
    then show ?thesis
      using clock_bit_synced_stays [of q P "last bits"] Some by (simp add: after)
  qed
qed

text \<open>
  The theorem at the streamer after reset, with the sync word 0x8833 after the three bits
  1, 0, 1.
\<close>

theorem sync_word_synchronises_witness:
  "initialized (gbp_rx_tx_byte_reset gbp_protocol_std)
   \<and> \<not> syncronised (gbp_rx_tx_byte_reset gbp_protocol_std)
   \<and> gbp_sync_scan 0x8833 0 (butlast ([True, False, True] @ gbp_word_bits 0x8833)) = None
   \<and> \<not> syncronised (fst (gbp_clock_bits gbp_protocol_std (gbp_rx_tx_byte_reset gbp_protocol_std)
          (butlast ([True, False, True] @ gbp_word_bits 0x8833))))
   \<and> syncronised (fst (gbp_clock_bits gbp_protocol_std (gbp_rx_tx_byte_reset gbp_protocol_std)
          ([True, False, True] @ gbp_word_bits 0x8833)))
   \<and> byte_frame_bit_pos (fst (gbp_clock_bits gbp_protocol_std (gbp_rx_tx_byte_reset gbp_protocol_std)
          ([True, False, True] @ gbp_word_bits 0x8833))) = 7"
proof -
  let ?ptr = "gbp_rx_tx_byte_reset gbp_protocol_std"
  let ?bits = "[True, False, True] @ gbp_word_bits 0x8833"
  have i: "initialized ?ptr" and u: "\<not> syncronised ?ptr"
    and w: "sync_word ?ptr = 0x8833" and b: "sync_buffer ?ptr = 0"
    by (simp_all add: gbp_rx_tx_byte_reset_def gbp_protocol_std_def)
  have e: "?bits = [True, False, True] @ gbp_word_bits (sync_word ?ptr)"
    by (simp add: w)
  have n: "gbp_sync_scan 0x8833 0 (butlast ?bits) = None"
    by (simp add: word_bits_std gbp_sync_shift_def)
  from sync_word_synchronises [OF i u e, of gbp_protocol_std] n i u
  show ?thesis by (simp only: w b) simp
qed

subsection \<open>C6: a checksum mismatch\<close>

text \<open>In the instance of the protocol constants, bit 0 of the status byte is the flag.\<close>

lemma status_byte_std_checksum_bit: "bit (gbp_status_byte_std st) 0 = checksum_error st"
  by (simp add: gbp_status_byte_std_def bit_simps)

lemma status_byte_std_flags_checksum: "gbp_status_byte_flags_checksum gbp_protocol_std 0x01"
  unfolding gbp_status_byte_flags_checksum_def
proof
  fix st
  have "(gbp_status_byte_std st AND 1 \<noteq> 0) = bit (gbp_status_byte_std st) 0"
    by (simp add: and_one_eq bit_0 mod_2_eq_odd)
  also have "\<dots> = checksum_error st"
    by (rule status_byte_std_checksum_bit)
  finally show "(gbp_status_byte gbp_protocol_std st AND 0x01 \<noteq> 0) = checksum_error st"
    by (simp add: gbp_protocol_std_def)
qed

text \<open>
  Claim C6 says: when the received checksum differs from the running sum, the parser
  sets \<^verbatim>\<open>checksum_error\<close>, reports it in the status byte it emits, and still goes on
  through the device id and status stages to the packet received state, where it sets
  the packet ready flag.

  From the low checksum stage, with checksum bytes \<open>lo\<close> and \<open>hi\<close> that do not match the
  running sum and two further bytes: the four calls stage nothing, the device id, the
  status byte, nothing; the status byte is the encoding of the printer status the parser
  has just updated, in which \<^verbatim>\<open>checksum_error\<close> is set, so for an encoder that gives
  the flag the bit \<open>m\<close> the emitted byte has that bit; the parser ends in the packet
  received state with the packet ready flag set.
\<close>

theorem checksum_mismatch_is_reported:
  assumes "parse_state (gbp_packet_parser s) = GBP_PARSE_STATE_CHECKSUM_LOW"
    and "calculated_checksum (gbp_packet_parser s) \<noteq> gbp_le16 lo hi"
    and "gbp_status_byte_flags_checksum P m"
  shows "case gbp_parse_bytes P s [(t1, lo), (t2, hi), (t3, b1), (t4, b2)] of
           Inl e \<Rightarrow> False
         | Inr (s', txs) \<Rightarrow>
             txs = [None, Some (GBP_DEVICE_ID P), Some (gbp_status_byte P (gbp_printer_status s')), None]
             \<and> gbp_status_byte P (gbp_printer_status s') AND m \<noteq> 0
             \<and> checksum_error (gbp_printer_status s')
             \<and> printer_status (gbp_packet s') = gbp_status_byte P (gbp_printer_status s')
             \<and> parse_state (gbp_packet_parser s') = GBP_PARSE_STATE_PACKET_RECEIVED
             \<and> packet_ready_flag s'"
proof -
  let ?run = "gbp_parse_bytes P s [(t1, lo), (t2, hi), (t3, b1), (t4, b2)]"
  have base: "case ?run of
           Inl e \<Rightarrow> False
         | Inr (s', txs) \<Rightarrow>
             txs = [None, Some (GBP_DEVICE_ID P), Some (gbp_status_byte P (gbp_printer_status s')), None]
             \<and> checksum_error (gbp_printer_status s')
             \<and> printer_status (gbp_packet s') = gbp_status_byte P (gbp_printer_status s')
             \<and> parse_state (gbp_packet_parser s') = GBP_PARSE_STATE_PACKET_RECEIVED
             \<and> packet_ready_flag s'"
    using assms(1,2) by (simp add: gbp_parse_defs gbp_le16_def)
  show ?thesis
  proof (cases ?run)
    case (Inl e)
    from base [unfolded Inl sum.case] show ?thesis by simp
  next
    case (Inr p)
    obtain s' txs where p: "p = (s', txs)" by (cases p)
    from base [unfolded Inr p sum.case prod.case]
    have tx: "txs = [None, Some (GBP_DEVICE_ID P), Some (gbp_status_byte P (gbp_printer_status s')), None]"
      and ce: "checksum_error (gbp_printer_status s')"
      and ps: "printer_status (gbp_packet s') = gbp_status_byte P (gbp_printer_status s')"
      and st: "parse_state (gbp_packet_parser s') = GBP_PARSE_STATE_PACKET_RECEIVED"
      and rd: "packet_ready_flag s'"
      by simp_all
    from assms(3) have "(gbp_status_byte P (gbp_printer_status s') AND m \<noteq> 0) = checksum_error (gbp_printer_status s')"
      unfolding gbp_status_byte_flags_checksum_def by (rule spec)
    with ce have bt: "gbp_status_byte P (gbp_printer_status s') AND m \<noteq> 0"
      by blast
    show ?thesis
      by (simp only: Inr p sum.case prod.case) (intro conjI tx bt ce ps st rd)
  qed
qed

text \<open>
  The theorem after the header of an INIT packet (running sum 1), with the checksum
  bytes 0x02 0x00: the device id 0x81 and the status byte 0x01 are staged.
\<close>

theorem checksum_mismatch_is_reported_witness:
  "gbp_status_byte_flags_checksum gbp_protocol_std 0x01
   \<and> (case gbp_parse_bytes gbp_protocol_std gbp_printer_ready (map (Pair 0) [0x01, 0, 0, 0]) of
     Inl e \<Rightarrow> False
   | Inr (s, txs0) \<Rightarrow>
       parse_state (gbp_packet_parser s) = GBP_PARSE_STATE_CHECKSUM_LOW
       \<and> calculated_checksum (gbp_packet_parser s) \<noteq> gbp_le16 0x02 0x00
       \<and> (case gbp_parse_bytes gbp_protocol_std s [(0, 0x02), (0, 0x00), (0, 0), (0, 0)] of
            Inl e \<Rightarrow> False
          | Inr (s', txs) \<Rightarrow>
              txs = [None, Some 0x81, Some 0x01, None]
              \<and> gbp_status_byte gbp_protocol_std (gbp_printer_status s') = 0x01
              \<and> gbp_status_byte gbp_protocol_std (gbp_printer_status s') AND 0x01 \<noteq> 0
              \<and> checksum_error (gbp_printer_status s')
              \<and> printer_status (gbp_packet s') = 0x01
              \<and> parse_state (gbp_packet_parser s') = GBP_PARSE_STATE_PACKET_RECEIVED
              \<and> packet_ready_flag s'))"
proof -
  note enc = status_byte_std_flags_checksum
  obtain s txs0 where run: "gbp_parse_bytes gbp_protocol_std gbp_printer_ready (map (Pair 0) [0x01, 0, 0, 0]) = Inr (s, txs0)"
    and st: "parse_state (gbp_packet_parser s) = GBP_PARSE_STATE_CHECKSUM_LOW"
    and ck: "calculated_checksum (gbp_packet_parser s) \<noteq> gbp_le16 0x02 0x00"
    and fl: "gbp_printer_status s = \<lparr>checksum_error = False, unprocessed_data = False,
                print_buffer_full = False, printer_busy = False\<rparr>"
    and cm: "command (gbp_packet s) = 0x01"
    by (simp add: gbp_parse_defs gbp_ready_defs gbp_le16_def)
  note c = checksum_mismatch_is_reported
    [where P = gbp_protocol_std and ?t1.0 = 0 and ?t2.0 = 0 and ?t3.0 = 0 and ?t4.0 = 0
       and ?b1.0 = 0 and ?b2.0 = 0, OF st ck enc]
  obtain s' txs where run2: "gbp_parse_bytes gbp_protocol_std s [(0, 0x02), (0, 0x00), (0, 0), (0, 0)] = Inr (s', txs)"
    and by1: "gbp_status_byte gbp_protocol_std (gbp_printer_status s') = 0x01"
    and dv: "GBP_DEVICE_ID gbp_protocol_std = 0x81"
    using st ck fl cm
    by (simp add: gbp_parse_defs gbp_le16_def gbp_protocol_std_def gbp_status_byte_std_def)
  from c [unfolded run2 sum.case prod.case] have d: "txs = [None, Some 0x81, Some 0x01, None]
              \<and> gbp_status_byte gbp_protocol_std (gbp_printer_status s') = 0x01
              \<and> gbp_status_byte gbp_protocol_std (gbp_printer_status s') AND 0x01 \<noteq> 0
              \<and> checksum_error (gbp_printer_status s')
              \<and> printer_status (gbp_packet s') = 0x01
              \<and> parse_state (gbp_packet_parser s') = GBP_PARSE_STATE_PACKET_RECEIVED
              \<and> packet_ready_flag s'"
    by (simp add: by1 dv)
  show ?thesis
    by (simp only: run run2 sum.case prod.case) (intro conjI enc st ck d [THEN conjunct1] d [THEN conjunct2])
qed

text \<open>With a matching checksum the same bit of the emitted status byte is clear.\<close>

lemma checksum_match_is_reported:
  assumes "parse_state (gbp_packet_parser s) = GBP_PARSE_STATE_CHECKSUM_LOW"
    and "calculated_checksum (gbp_packet_parser s) = gbp_le16 lo hi"
    and "gbp_status_byte_flags_checksum P m"
  shows "case gbp_parse_bytes P s [(t1, lo), (t2, hi), (t3, b1), (t4, b2)] of
           Inl e \<Rightarrow> False
         | Inr (s', txs) \<Rightarrow>
             txs = [None, Some (GBP_DEVICE_ID P), Some (gbp_status_byte P (gbp_printer_status s')), None]
             \<and> gbp_status_byte P (gbp_printer_status s') AND m = 0
             \<and> \<not> checksum_error (gbp_printer_status s')"
proof -
  let ?run = "gbp_parse_bytes P s [(t1, lo), (t2, hi), (t3, b1), (t4, b2)]"
  have base: "case ?run of
           Inl e \<Rightarrow> False
         | Inr (s', txs) \<Rightarrow>
             txs = [None, Some (GBP_DEVICE_ID P), Some (gbp_status_byte P (gbp_printer_status s')), None]
             \<and> \<not> checksum_error (gbp_printer_status s')"
    using assms(1,2) by (simp add: gbp_parse_defs gbp_le16_def)
  show ?thesis
  proof (cases ?run)
    case (Inl e)
    from base [unfolded Inl sum.case] show ?thesis by simp
  next
    case (Inr p)
    obtain s' txs where p: "p = (s', txs)" by (cases p)
    from base [unfolded Inr p sum.case prod.case]
    have tx: "txs = [None, Some (GBP_DEVICE_ID P), Some (gbp_status_byte P (gbp_printer_status s')), None]"
      and ce: "\<not> checksum_error (gbp_printer_status s')"
      by simp_all
    from assms(3) have "(gbp_status_byte P (gbp_printer_status s') AND m \<noteq> 0) = checksum_error (gbp_printer_status s')"
      unfolding gbp_status_byte_flags_checksum_def by (rule spec)
    with ce have bt: "gbp_status_byte P (gbp_printer_status s') AND m = 0"
      by blast
    show ?thesis
      by (simp only: Inr p sum.case prod.case) (intro conjI tx bt ce)
  qed
qed

subsection \<open>C7: a data length without a payload target\<close>

text \<open>
  Claim C7 says: on a non-zero data length for a command without a payload target, the
  system reports the violation and forces a resynchronisation, rather than halting.

  The code halts. For a command whose \<^verbatim>\<open>data_ptr\<close> is \<^verbatim>\<open>NULL\<close> (INIT, INQUIRY, any
  unknown code) and length bytes that are not both zero, the high length byte ends in the
  endless loop \<^verbatim>\<open>while (1);\<close> after the error message: whatever bytes follow, none is
  processed.
\<close>

theorem protocol_violation_halts:
  assumes "parse_state (gbp_packet_parser s) = GBP_PARSE_STATE_COMMAND"
    and "gbp_select_data_ptr P cmd = NULL"
    and "gbp_le16 lo hi \<noteq> 0"
  shows "gbp_parse_bytes P s ((t1, cmd) # (t2, c) # (t3, lo) # (t4, hi) # rest) = Inl Halted"
  using assms
  by (simp add: gbp_parse_message_update_def gbp_parse_new_byte_def gbp_parse_init_stage_def
      Let_def gbp_le16_def word_greater_zero_iff)

text \<open>The theorem at an INQUIRY packet with data length 0x0100, followed by one more byte.\<close>

theorem protocol_violation_halts_witness:
  "parse_state (gbp_packet_parser gbp_printer_ready) = GBP_PARSE_STATE_COMMAND
   \<and> gbp_select_data_ptr gbp_protocol_std 0x0F = NULL
   \<and> gbp_le16 0 1 \<noteq> 0
   \<and> gbp_parse_bytes gbp_protocol_std gbp_printer_ready [(0, 0x0F), (0, 0), (0, 0), (0, 1), (0, 0xAA)] = Inl Halted"
proof -
  have st: "parse_state (gbp_packet_parser gbp_printer_ready) = GBP_PARSE_STATE_COMMAND"
    by (simp add: gbp_ready_defs)
  have nl: "gbp_select_data_ptr gbp_protocol_std 0x0F = NULL"
    by (simp add: gbp_select_data_ptr_def gbp_protocol_std_def)
  have nz: "gbp_le16 0 1 \<noteq> 0"
    by (simp add: gbp_le16_def)
  from protocol_violation_halts
    [where ?t1.0 = 0 and ?t2.0 = 0 and ?t3.0 = 0 and ?t4.0 = 0 and c = 0 and rest = "[(0, 0xAA)]",
     OF st nl nz]
    st nl nz
  show ?thesis by simp
qed

text \<open>
  The claim as stated fails: an INIT packet with data length 1 halts the parser at the
  high length byte, and it is still halted when a sync word and a well-formed INIT packet
  follow.
\<close>

theorem protocol_violation_counterexample:
  "gbp_parse_bytes gbp_protocol_std gbp_printer_ready (map (Pair 0) [0x01, 0, 1, 0]) = Inl Halted
   \<and> gbp_parse_bytes gbp_protocol_std gbp_printer_ready
        (map (Pair 0) [0x01, 0, 1, 0, 0x88, 0x33, 0x01, 0, 0, 0]) = Inl Halted"
  by (simp add: gbp_parse_defs gbp_ready_defs)

subsection \<open>C8: payload writes and the size of the buffers\<close>

text \<open>
  Claim C8 says: every payload write is checked against the capacity of the selected
  buffer, and a payload that would exceed it is diverted to the protocol violation path
  instead of being written past the end.

  The code has no such check. For a command with a payload target (DATA, PRINT) and a
  data length at or beyond the size of the target (650, 4), the header is accepted and
  the parser is still in the payload stage when the payload bytes have filled the array.
  The next byte is stored past the end of the array and the parser carries on, in the
  payload stage or, when the data length equals the size, in the low checksum stage: past
  the settings buffer the byte is in \<^verbatim>\<open>gbp_print_buffer[0]\<close>, past the print buffer
  it is the first byte of the memory that follows the array.
\<close>

theorem payload_write_unchecked:
  assumes "gbp_buffers_ok s"
    and "parse_state (gbp_packet_parser s) = GBP_PARSE_STATE_COMMAND"
    and "gbp_select_data_ptr P cmd \<noteq> NULL"
    and "gbp_capacity (gbp_select_data_ptr P cmd) \<le> unat (gbp_le16 lo hi)"
    and "length bs = gbp_capacity (gbp_select_data_ptr P cmd)"
  shows "gbp_state_after (gbp_parse_bytes P s ([(t1, cmd), (t2, c), (t3, lo), (t4, hi)] @ bs))
           = Some GBP_PARSE_STATE_VARIABLE_PAYLOAD
       \<and> (case gbp_parse_bytes P s ([(t1, cmd), (t2, c), (t3, lo), (t4, hi)] @ bs @ [(t, x)]) of
            Inl e \<Rightarrow> False
          | Inr (s', txs) \<Rightarrow>
              parse_state (gbp_packet_parser s') =
                (if unat (gbp_le16 lo hi) = gbp_capacity (gbp_select_data_ptr P cmd)
                 then GBP_PARSE_STATE_CHECKSUM_LOW else GBP_PARSE_STATE_VARIABLE_PAYLOAD)
              \<and> (case gbp_select_data_ptr P cmd of
                    NULL \<Rightarrow> False
                  | Print_Buffer \<Rightarrow>
                      past_print_buffer s' \<noteq> [] \<and> last (past_print_buffer s') = (0, x)
                  | Print_Settings_Buffer \<Rightarrow> gbp_print_buffer s' ! 0 = x))"
proof -
  let ?T = "gbp_select_data_ptr P cmd"
  let ?hdr = "[(t1, cmd), (t2, c), (t3, lo), (t4, hi)]"
  from assms(3) have cap: "0 < gbp_capacity ?T" and cap650: "gbp_capacity ?T \<le> 650"
    by (cases ?T; simp add: gbp_capacity_def)+
  with assms(4) have nz: "gbp_le16 lo hi \<noteq> 0"
    by (auto simp add: unat_eq_zero)
  define s4 where "s4 = s\<lparr>gbp_packet_parser := (gbp_packet_parser s)\<lparr>
                  parse_state := GBP_PARSE_STATE_VARIABLE_PAYLOAD, data_index := 0,
                  calculated_checksum := 0 + ucast cmd + ucast c + ucast lo + ucast hi\<rparr>,
               gbp_packet := (gbp_packet s)\<lparr>command := cmd, compression := c,
                  data_length := gbp_le16 lo hi, data_ptr := ?T\<rparr>\<rparr>"
  have hdr: "gbp_parse_bytes P s ?hdr = Inr (s4, [None, None, None, None])"
    using header_run [OF assms(1,2), of P t1 cmd t2 c t3 lo t4 hi] nz assms(3)
    by (simp add: s4_def)
  have s4: "gbp_buffers_ok s4" "parse_state (gbp_packet_parser s4) = GBP_PARSE_STATE_VARIABLE_PAYLOAD"
    "data_index (gbp_packet_parser s4) = 0" "data_ptr (gbp_packet s4) = ?T"
    "data_length (gbp_packet s4) = gbp_le16 lo hi"
    using assms(1) by (simp_all add: s4_def gbp_buffers_ok_def)
  have nn4: "data_ptr (gbp_packet s4) \<noteq> NULL"
    using s4(4) assms(3) by simp
  from payload_run [OF s4(2) nn4, of bs P] s4(1,3,5) assms(4,5)
  obtain s5 where s5: "gbp_parse_bytes P s4 bs = Inr (s5, replicate (length bs) None)"
    "gbp_buffers_ok s5" "parse_state (gbp_packet_parser s5) = GBP_PARSE_STATE_VARIABLE_PAYLOAD"
    "unat (data_index (gbp_packet_parser s5)) = length bs" "gbp_packet s5 = gbp_packet s4"
    by auto
  have nn5: "data_ptr (gbp_packet s5) \<noteq> NULL"
    using s5(5) nn4 by simp
  have suc: "unat (data_index (gbp_packet_parser s5) + 1) = gbp_capacity ?T + 1"
    using s5(4) assms(5) cap650 by (simp add: unat_word_ariths)
  have leave: "(data_length (gbp_packet s5) < data_index (gbp_packet_parser s5) + 1)
      = (unat (gbp_le16 lo hi) = gbp_capacity ?T)"
    using suc assms(4) s5(5) s4(5) by (auto simp add: word_less_nat_alt)
  from payload_step [OF s5(3) nn5, of P t x] leave
  obtain s6 where s6: "gbp_parse_message_update P t s5 True x = Inr (s6, None)"
    "parse_state (gbp_packet_parser s6) =
       (if unat (gbp_le16 lo hi) = gbp_capacity ?T
        then GBP_PARSE_STATE_CHECKSUM_LOW else GBP_PARSE_STATE_VARIABLE_PAYLOAD)"
    by auto
  have store: "case ?T of
                 NULL \<Rightarrow> False
               | Print_Buffer \<Rightarrow> past_print_buffer s6 \<noteq> [] \<and> last (past_print_buffer s6) = (0, x)
               | Print_Settings_Buffer \<Rightarrow> gbp_print_buffer s6 ! 0 = x"
  proof (cases ?T)
    case NULL
    with assms(3) show ?thesis by simp
  next
    case Print_Buffer
    with s5(4,5) s4(4) assms(5) have "data_ptr (gbp_packet s5) = Print_Buffer"
      "unat (data_index (gbp_packet_parser s5)) = 650"
      by (simp_all add: gbp_capacity_def)
    from payload_store_past_print [OF s5(2,3) this, of P t x] s6(1) Print_Buffer
    show ?thesis by auto
  next
    case Print_Settings_Buffer
    with s5(4,5) s4(4) assms(5) have "data_ptr (gbp_packet s5) = Print_Settings_Buffer"
      "unat (data_index (gbp_packet_parser s5)) = 4"
      by (simp_all add: gbp_capacity_def)
    from payload_store_past_settings [OF s5(2,3) this, of P t x] s6(1) Print_Settings_Buffer
    show ?thesis by auto
  qed
  have a: "gbp_state_after (gbp_parse_bytes P s (?hdr @ bs)) = Some GBP_PARSE_STATE_VARIABLE_PAYLOAD"
    using hdr s5(1,3) by (simp only: parse_bytes_append) (simp add: gbp_state_after_def)
  have run: "gbp_parse_bytes P s (?hdr @ bs @ [(t, x)])
      = Inr (s6, [None, None, None, None] @ replicate (length bs) None @ [None])"
    using hdr s5(1) s6(1) by (simp only: parse_bytes_append) simp
  show ?thesis
    by (simp only: run sum.case prod.case) (intro conjI a s6(2) store)
qed

text \<open>
  The theorem at a PRINT packet with data length 4, the size of the settings buffer: the
  fifth payload byte is stored in \<^verbatim>\<open>gbp_print_buffer[0]\<close>.
\<close>

theorem payload_write_unchecked_witness:
  "gbp_buffers_ok gbp_printer_ready
   \<and> parse_state (gbp_packet_parser gbp_printer_ready) = GBP_PARSE_STATE_COMMAND
   \<and> gbp_select_data_ptr gbp_protocol_std 0x02 = Print_Settings_Buffer
   \<and> gbp_capacity Print_Settings_Buffer \<le> unat (gbp_le16 4 0)
   \<and> gbp_state_after (gbp_parse_bytes gbp_protocol_std gbp_printer_ready
          ([(0, 0x02), (0, 0), (0, 4), (0, 0)] @ [(0, 0xD1), (0, 0xD2), (0, 0xD3), (0, 0xD4)]))
        = Some GBP_PARSE_STATE_VARIABLE_PAYLOAD
   \<and> (case gbp_parse_bytes gbp_protocol_std gbp_printer_ready
          ([(0, 0x02), (0, 0), (0, 4), (0, 0)] @ [(0, 0xD1), (0, 0xD2), (0, 0xD3), (0, 0xD4)] @ [(0, 0xD5)]) of
         Inl e \<Rightarrow> False
       | Inr (s', txs) \<Rightarrow>
           parse_state (gbp_packet_parser s') = GBP_PARSE_STATE_CHECKSUM_LOW
           \<and> gbp_print_buffer s' ! 0 = 0xD5)"
proof -
  let ?bs = "[(0, 0xD1), (0, 0xD2), (0, 0xD3), (0, 0xD4)] :: (u32 \<times> u8) list"
  have ok: "gbp_buffers_ok gbp_printer_ready"
    by (simp add: gbp_ready_defs gbp_buffers_ok_def)
  have st: "parse_state (gbp_packet_parser gbp_printer_ready) = GBP_PARSE_STATE_COMMAND"
    by (simp add: gbp_ready_defs)
  have tg: "gbp_select_data_ptr gbp_protocol_std 0x02 = Print_Settings_Buffer"
    by (simp add: gbp_select_data_ptr_def gbp_protocol_std_def)
  have nn: "gbp_select_data_ptr gbp_protocol_std 0x02 \<noteq> NULL"
    by (simp add: tg)
  have l4: "unat (gbp_le16 4 0) = 4"
    by (simp add: gbp_le16_def)
  have cp: "gbp_capacity (gbp_select_data_ptr gbp_protocol_std 0x02) \<le> unat (gbp_le16 4 0)"
    by (simp add: tg gbp_capacity_def l4)
  have cp': "gbp_capacity Print_Settings_Buffer \<le> unat (gbp_le16 4 0)"
    using cp by (simp only: tg)
  have ln: "length ?bs = gbp_capacity (gbp_select_data_ptr gbp_protocol_std 0x02)"
    by (simp add: tg gbp_capacity_def)
  note c = payload_write_unchecked
    [where ?t1.0 = 0 and ?t2.0 = 0 and ?t3.0 = 0 and ?t4.0 = 0 and c = 0 and t = 0 and x = "0xD5",
     OF ok st nn cp ln]
  have e: "unat (gbp_le16 4 0) = gbp_capacity Print_Settings_Buffer"
    by (simp add: l4 gbp_capacity_def)
  from c [unfolded tg gbp_data_ptr.case e]
  have d: "gbp_state_after (gbp_parse_bytes gbp_protocol_std gbp_printer_ready
          ([(0, 0x02), (0, 0), (0, 4), (0, 0)] @ ?bs))
        = Some GBP_PARSE_STATE_VARIABLE_PAYLOAD
   \<and> (case gbp_parse_bytes gbp_protocol_std gbp_printer_ready
          ([(0, 0x02), (0, 0), (0, 4), (0, 0)] @ ?bs @ [(0, 0xD5)]) of
         Inl e \<Rightarrow> False
       | Inr (s', txs) \<Rightarrow>
           parse_state (gbp_packet_parser s') = GBP_PARSE_STATE_CHECKSUM_LOW
           \<and> gbp_print_buffer s' ! 0 = 0xD5)"
    by (simp only: simp_thms if_True)
  show ?thesis
    by (intro conjI ok st tg cp' d [THEN conjunct1] d [THEN conjunct2])
qed

text \<open>
  The claim as stated fails: a PRINT packet that announces 16 payload bytes is accepted
  into the payload stage, and its fifth payload byte is not diverted but stored past the
  end of the 4 byte settings buffer, in \<^verbatim>\<open>gbp_print_buffer[0]\<close>, with the parser
  still in the payload stage.
\<close>

theorem payload_bounds_counterexample:
  "gbp_state_after (gbp_parse_bytes gbp_protocol_std gbp_printer_ready (map (Pair 0) [0x02, 0, 0x10, 0]))
      = Some GBP_PARSE_STATE_VARIABLE_PAYLOAD
   \<and> (case gbp_parse_bytes gbp_protocol_std gbp_printer_ready
          (map (Pair 0) [0x02, 0, 0x10, 0, 0xA1, 0xA2, 0xA3, 0xA4, 0xA5]) of
        Inl e \<Rightarrow> False
      | Inr (s', txs) \<Rightarrow>
          parse_state (gbp_packet_parser s') = GBP_PARSE_STATE_VARIABLE_PAYLOAD
          \<and> data_index (gbp_packet_parser s') = 5
          \<and> gbp_print_settings_buffer s' ! 3 = 0xA4
          \<and> gbp_print_buffer s' ! 0 = 0xA5)"
  by (simp add: gbp_parse_defs gbp_ready_defs gbp_state_after_def)

subsection \<open>C9: loading the transmit buffer\<close>

text \<open>
  A byte staged before the start of a byte frame goes out over the next eight falling
  edges, most significant bit first.
\<close>

lemma staged_byte_sent_msb_first:
  assumes "initialized ptr" "syncronised ptr" "serial_clock_state_prev ptr"
    and "byte_frame_bit_pos ptr = 7"
  shows "snd (gbp_clock_bits P (gbp_rx_tx_byte_set ptr B) [b7, b6, b5, b4, b3, b2, b1, b0])
           = map Some (gbp_byte_bits B)"
  using assms
  by (simp add: clock_bit_synced gbp_rx_tx_byte_set_def byte_bits_list Let_def)

text \<open>
  Claim C9 says: at the start of a byte frame the transmit buffer is loaded from the
  staged byte only if a byte was staged since the last load, and with 0 otherwise, so
  that an idle frame transmits zero bits and never repeats the previous byte; and a
  staged byte goes out most significant bit first.

  The second part holds (lemma above). The first does not: the code tests whether
  \<^verbatim>\<open>tx_byte_staging\<close> is non-zero and never clears it, against its comment "No new
  bytes present. Just keep transmitting zeros". After the sync word, 0x81 staged once
  goes out in the first frame and again in the second, for which nothing was staged.
\<close>

theorem idle_frame_repeats_staged_byte:
  "syncronised (fst (gbp_clock_bits gbp_protocol_std (gbp_rx_tx_byte_reset gbp_protocol_std) (gbp_word_bits 0x8833)))
   \<and> (case gbp_clock_bits gbp_protocol_std
              (gbp_rx_tx_byte_set
                 (fst (gbp_clock_bits gbp_protocol_std (gbp_rx_tx_byte_reset gbp_protocol_std) (gbp_word_bits 0x8833)))
                 0x81)
              [False, False, False, False, False, False, False, False] of
          (ptr, outs) \<Rightarrow>
            outs = map Some (gbp_byte_bits 0x81) \<and>
            byte_frame_bit_pos ptr = 7 \<and>
            (case gbp_clock_bits gbp_protocol_std ptr [False, False, False, False, False, False, False, False] of
               (ptr', outs') \<Rightarrow>
                 tx_byte_buffer ptr' = 0x81 \<and>
                 outs' = [Some True, Some False, Some False, Some False, Some False, Some False, Some False, Some True]))"
  by (simp add: gbp_clock_eval byte_bits_list)

subsection \<open>C10: status flags across INIT and INQUIRY packets\<close>

text \<open>
  Claim C10 says: completing an INIT or INQUIRY packet leaves every printer status flag
  other than \<^verbatim>\<open>checksum_error\<close> unchanged, and the pretend print deadline too; an
  INIT packet in particular does not clear flags set before.

  From the command stage, for the eight bytes of an INIT or INQUIRY packet with data
  length 0, any compression byte, checksum bytes and further bytes: the parser ends in
  the packet received state with \<^verbatim>\<open>unprocessed_data\<close>, \<^verbatim>\<open>print_buffer_full\<close>,
  \<^verbatim>\<open>printer_busy\<close> and the deadline as they were, and \<^verbatim>\<open>checksum_error\<close> as the
  comparison of the checksum decides.
\<close>

theorem init_inquiry_keep_status_flags:
  assumes "gbp_commands_distinct P"
    and "parse_state (gbp_packet_parser s) = GBP_PARSE_STATE_COMMAND"
    and "cmd = GBP_COMMAND_INIT P \<or> cmd = GBP_COMMAND_INQUIRY P"
  shows "case gbp_parse_bytes P s
                [(t1, cmd), (t2, c), (t3, 0), (t4, 0), (t5, lo), (t6, hi), (t7, b1), (t8, b2)] of
           Inl e \<Rightarrow> False
         | Inr (s', txs) \<Rightarrow>
             parse_state (gbp_packet_parser s') = GBP_PARSE_STATE_PACKET_RECEIVED
             \<and> unprocessed_data (gbp_printer_status s') = unprocessed_data (gbp_printer_status s)
             \<and> print_buffer_full (gbp_printer_status s') = print_buffer_full (gbp_printer_status s)
             \<and> printer_busy (gbp_printer_status s') = printer_busy (gbp_printer_status s)
             \<and> uptime_til_pretend_print_finish_ms s' = uptime_til_pretend_print_finish_ms s
             \<and> checksum_error (gbp_printer_status s') = (ucast cmd + ucast c \<noteq> gbp_le16 lo hi)"
  using assms by (auto simp add: gbp_parse_defs gbp_commands_distinct_def gbp_le16_def)

text \<open>
  The theorem at an INIT packet received while the three flags are set and a deadline is
  pending.
\<close>

theorem init_inquiry_keep_status_flags_witness:
  "gbp_commands_distinct gbp_protocol_std
   \<and> parse_state (gbp_packet_parser gbp_printer_busy_example) = GBP_PARSE_STATE_COMMAND
   \<and> (case gbp_parse_bytes gbp_protocol_std gbp_printer_busy_example
              [(0, 0x01), (0, 0), (0, 0), (0, 0), (0, 0x01), (0, 0), (0, 0), (0, 0)] of
         Inl e \<Rightarrow> False
       | Inr (s', txs) \<Rightarrow>
           parse_state (gbp_packet_parser s') = GBP_PARSE_STATE_PACKET_RECEIVED
           \<and> unprocessed_data (gbp_printer_status s')
           \<and> print_buffer_full (gbp_printer_status s')
           \<and> printer_busy (gbp_printer_status s')
           \<and> uptime_til_pretend_print_finish_ms s' = 5000)"
proof -
  have d: "gbp_commands_distinct gbp_protocol_std"
    by (simp add: gbp_commands_distinct_def gbp_protocol_std_def)
  have st: "parse_state (gbp_packet_parser gbp_printer_busy_example) = GBP_PARSE_STATE_COMMAND"
    by (simp add: gbp_printer_busy_example_def gbp_ready_defs)
  have c: "(0x01 :: u8) = GBP_COMMAND_INIT gbp_protocol_std \<or> (0x01 :: u8) = GBP_COMMAND_INQUIRY gbp_protocol_std"
    by (simp add: gbp_protocol_std_def)
  have f: "unprocessed_data (gbp_printer_status gbp_printer_busy_example)"
    "print_buffer_full (gbp_printer_status gbp_printer_busy_example)"
    "printer_busy (gbp_printer_status gbp_printer_busy_example)"
    "uptime_til_pretend_print_finish_ms gbp_printer_busy_example = 5000"
    by (simp_all add: gbp_printer_busy_example_def)
  from init_inquiry_keep_status_flags
    [where ?t1.0 = 0 and ?t2.0 = 0 and ?t3.0 = 0 and ?t4.0 = 0 and ?t5.0 = 0 and ?t6.0 = 0
       and ?t7.0 = 0 and ?t8.0 = 0 and c = 0 and lo = "0x01" and hi = 0 and ?b1.0 = 0 and ?b2.0 = 0,
     OF d st c]
  show ?thesis
    using d st f by (auto split: sum.splits)
qed

end
